theory Spec2Isabelle
  imports Main
begin

section \<open>Values, rows and the three tables\<close>

text \<open>
  The program is a Streamlit console over one SQLite file with the tables
  \<open>Bots\<close>, \<open>KnowledgeBase\<close> and \<open>BotKnowledgeLink\<close>. Python values handed to
  the \<open>sqlite3\<close> module as statement parameters are \<open>pyval\<close>; what the store
  keeps is \<open>sqlval\<close>. \<open>PNaN\<close> stands for a float NaN or \<open>pd.NA\<close>, the values
  \<open>pd.notna\<close> rejects besides \<open>None\<close>.
\<close>

datatype pyval = PNone | PInt int | PStr string | PNaN

datatype sqlval = SNull | SInt int | SText string

text \<open>Parameter binding: \<open>None\<close> becomes NULL, and SQLite keeps a NaN as NULL.\<close>

fun bind_param :: "pyval \<Rightarrow> sqlval" where
  "bind_param PNone = SNull"
| "bind_param (PInt i) = SInt i"
| "bind_param (PStr s) = SText s"
| "bind_param PNaN = SNull"

text \<open>
  The comparison \<open>column = ?\<close> of a WHERE clause: NULL is equal to nothing, not
  even to NULL. The declared column types are not part of the repository, so
  no type affinity is applied here: values are compared as they are stored,
  which is what SQLite does when the parameter has the type of the stored
  value. Where the Update Record form passes the text of an identifier
  instead, the reading of that text by the column is a parameter of the
  form.
\<close>

fun sql_eq :: "sqlval \<Rightarrow> sqlval \<Rightarrow> bool" where
  "sql_eq SNull _ = False"
| "sql_eq _ SNull = False"
| "sql_eq a b = (a = b)"

type_synonym row = "(string \<times> sqlval) list"

definition matches :: "string \<Rightarrow> sqlval \<Rightarrow> row \<Rightarrow> bool" where
  "matches c v r = (case map_of r c of Some x \<Rightarrow> sql_eq x v | None \<Rightarrow> False)"

record db =
  Bots :: "row list"
  KnowledgeBase :: "row list"
  BotKnowledgeLink :: "row list"

definition get_table :: "string \<Rightarrow> db \<Rightarrow> row list option" where
  "get_table t d =
     (if t = ''Bots'' then Some (Bots d)
      else if t = ''KnowledgeBase'' then Some (KnowledgeBase d)
      else if t = ''BotKnowledgeLink'' then Some (BotKnowledgeLink d)
      else None)"

definition put_table :: "string \<Rightarrow> row list \<Rightarrow> db \<Rightarrow> db" where
  "put_table t rs d =
     (if t = ''Bots'' then d\<lparr>Bots := rs\<rparr>
      else if t = ''KnowledgeBase'' then d\<lparr>KnowledgeBase := rs\<rparr>
      else if t = ''BotKnowledgeLink'' then d\<lparr>BotKnowledgeLink := rs\<rparr>
      else d)"

section \<open>Statements, failures and the connection\<close>

text \<open>
  The exception classes the handlers of the source tell apart:
  \<open>sqlite3.IntegrityError\<close> is a \<open>sqlite3.DatabaseError\<close>, which is a
  \<open>sqlite3.Error\<close>; \<open>sqlite3.InterfaceError\<close> is a \<open>sqlite3.Error\<close> only;
  \<open>PyException\<close> is any other Python exception.
\<close>

datatype error = IntegrityError | DatabaseError | InterfaceError | PyException

definition is_DatabaseError :: "error \<Rightarrow> bool" where
  "is_DatabaseError e = (e = IntegrityError \<or> e = DatabaseError)"

definition is_sqlite_Error :: "error \<Rightarrow> bool" where
  "is_sqlite_Error e = (e \<noteq> PyException)"

text \<open>The calls the source makes on the store.\<close>

datatype stmt =
    Connect
  | Pragma_foreign_keys
  | Begin
  | Commit
  | Select_all string
  | Select_link sqlval sqlval
  | Delete_where string string sqlval
  | Insert_into string row
  | Update_where string "(string \<times> sqlval) list" string sqlval

text \<open>
  \<open>UPDATE t SET k = v, ...\<close> on one row: each listed column takes its new
  value. Rows carry a value for every column of their table; a statement
  naming a column the table does not have is one of the failures below.
\<close>

fun set_col :: "string \<Rightarrow> sqlval \<Rightarrow> row \<Rightarrow> row" where
  "set_col k v [] = [(k, v)]"
| "set_col k v ((k', v') # r) = (if k' = k then (k, v) # r else (k', v') # set_col k v r)"

fun assign :: "(string \<times> sqlval) list \<Rightarrow> row \<Rightarrow> row" where
  "assign [] r = r"
| "assign ((k, v) # as) r = assign as (set_col k v r)"

text \<open>
  What a statement does to the connection's view of the database when it
  succeeds. \<open>None\<close> is the statement SQLite rejects whatever the data: an
  unknown table, or an UPDATE with an empty SET list.
\<close>

fun run :: "stmt \<Rightarrow> db \<Rightarrow> db option" where
  "run (Delete_where t c v) d =
     (case get_table t d of None \<Rightarrow> None
      | Some rs \<Rightarrow> Some (put_table t (filter (\<lambda>r. \<not> matches c v r) rs) d))"
| "run (Insert_into t r) d =
     (case get_table t d of None \<Rightarrow> None
      | Some rs \<Rightarrow> Some (put_table t (rs @ [r]) d))"
| "run (Update_where t as c v) d =
     (if as = [] then None
      else case get_table t d of None \<Rightarrow> None
      | Some rs \<Rightarrow> Some (put_table t (map (\<lambda>r. if matches c v r then assign as r else r) rs) d))"
| "run (Select_all t) d = (case get_table t d of None \<Rightarrow> None | Some rs \<Rightarrow> Some d)"
| "run _ d = Some d"

text \<open>
  Everything else that can make a call on the store raise (a constraint of
  the schema, a locked or unreadable file, a value that cannot be bound) is
  a parameter: \<open>f s d\<close> is the exception that call \<open>s\<close> raises when the
  connection sees the database \<open>d\<close>, if any. A statement that raises changes
  nothing.
\<close>

type_synonym faults = "stmt \<Rightarrow> db \<Rightarrow> error option"

definition no_faults :: faults where
  "no_faults = (\<lambda>s d. None)"

definition exec :: "faults \<Rightarrow> stmt \<Rightarrow> db \<Rightarrow> error + db" where
  "exec f s d =
     (case f s d of Some e \<Rightarrow> Inl e
      | None \<Rightarrow> (case run s d of None \<Rightarrow> Inl DatabaseError | Some d' \<Rightarrow> Inr d'))"

text \<open>Statements in sequence; the first exception ends the sequence.\<close>

fun exec_all :: "faults \<Rightarrow> stmt list \<Rightarrow> db \<Rightarrow> error + db" where
  "exec_all f [] d = Inr d"
| "exec_all f (s # ss) d =
     (case exec f s d of Inl e \<Rightarrow> Inl e | Inr d' \<Rightarrow> exec_all f ss d')"

section \<open>The process state\<close>

text \<open>
  What is passed to \<open>st.error\<close>: a string, an exception, or an f-string
  that formats an exception into a string.
\<close>

datatype arg = Str string | Exc error | Fmt string error

text \<open>
  \<open>disk\<close> is the committed content of the SQLite file. A connection works
  on a copy of it: with the \<open>sqlite3\<close> module's default transaction control
  a DELETE, INSERT or UPDATE opens a transaction if none is open, and the
  changes reach the file only at \<open>commit\<close>; \<open>rollback\<close>, and closing or
  dropping the connection, discard them. \<open>cache\<close> holds the results that
  \<open>st.cache_data\<close> memoises for \<open>load_data\<close>, each with the time it was
  stored; \<open>ui\<close> the messages shown through \<open>st.error\<close>; \<open>conns\<close> counts the
  connections opened and not closed.
\<close>

record world =
  disk :: db
  cache :: "(string \<times> nat \<times> row list) list"
  ui :: "arg list"
  conns :: nat

datatype 'a outcome = Returned 'a | Raised error

text \<open>
  \<open>st.error\<close> takes the message as its one positional argument. A call with
  one argument shows it; a call with two raises \<open>TypeError\<close> and shows
  nothing.
\<close>

definition st_error :: "arg list \<Rightarrow> world \<Rightarrow> unit outcome \<times> world" where
  "st_error args w =
     (case args of
        [body] \<Rightarrow> (Returned (), w\<lparr>ui := ui w @ [body]\<rparr>)
      | _ \<Rightarrow> (Raised PyException, w))"

section \<open>Reading: \<open>load_data\<close> behind \<open>st.cache_data(ttl=60)\<close>\<close>

text \<open>
  A memoised result is served while it is younger than 60 seconds; \<open>now\<close>
  is the time of the call. New entries go to the front.
\<close>

fun cache_lookup :: "nat \<Rightarrow> string \<Rightarrow> (string \<times> nat \<times> row list) list \<Rightarrow> row list option" where
  "cache_lookup now t [] = None"
| "cache_lookup now t ((t', stored, rs) # c) =
     (if t' = t \<and> now < stored + 60 then Some rs else cache_lookup now t c)"

text \<open>
  The body of \<open>load_data\<close>: no handler, and \<open>close\<close> only on the success
  path. \<open>pd.read_sql_query\<close> raises a failure of the query, an unknown table
  among them, as pandas' own \<open>DatabaseError\<close>, which is no \<open>sqlite3\<close> class.
\<close>

definition load_data_body :: "faults \<Rightarrow> string \<Rightarrow> world \<Rightarrow> row list outcome \<times> world" where
  "load_data_body f table_name w =
     (case f Connect (disk w) of
        Some e \<Rightarrow> (Raised e, w)
      | None \<Rightarrow>
          (case f (Select_all table_name) (disk w) of
             Some e \<Rightarrow> (Raised PyException, w\<lparr>conns := conns w + 1\<rparr>)
           | None \<Rightarrow>
               (case get_table table_name (disk w) of
                  None \<Rightarrow> (Raised PyException, w\<lparr>conns := conns w + 1\<rparr>)
                | Some rs \<Rightarrow> (Returned rs, w))))"

definition load_data :: "faults \<Rightarrow> nat \<Rightarrow> string \<Rightarrow> world \<Rightarrow> row list outcome \<times> world" where
  "load_data f now table_name w =
     (case cache_lookup now table_name (cache w) of
        Some rs \<Rightarrow> (Returned rs, w)
      | None \<Rightarrow>
          (case load_data_body f table_name w of
             (Returned rs, w') \<Rightarrow> (Returned rs, w'\<lparr>cache := (table_name, now, rs) # cache w'\<rparr>)
           | (Raised e, w') \<Rightarrow> (Raised e, w')))"

section \<open>\<open>delete_record\<close>\<close>

text \<open>
  The statements between \<open>try\<close> and \<open>commit\<close>: the pragma, \<open>BEGIN\<close>, the
  delete of the dependent links chosen by the table name, the delete of
  the row, the commit.
\<close>

definition delete_stmts :: "sqlval \<Rightarrow> string \<Rightarrow> string \<Rightarrow> stmt list" where
  "delete_stmts v table_name identifier_column =
     [Pragma_foreign_keys, Begin]
     @ (if table_name = ''Bots'' then [Delete_where ''BotKnowledgeLink'' ''Bot_ID'' v]
        else if table_name = ''KnowledgeBase'' then [Delete_where ''BotKnowledgeLink'' ''KnowledgeBase_ID'' v]
        else [])
     @ [Delete_where table_name identifier_column v, Commit]"

definition delete_prefix :: "error \<Rightarrow> string" where
  "delete_prefix e =
     (if e = IntegrityError then ''Integrity error:''
      else if is_DatabaseError e then ''Database error:''
      else ''An unexpected error occurred:'')"

text \<open>
  \<open>connect\<close> is inside the \<open>try\<close>: when it raises, \<open>conn\<close> is unbound, so the
  handler's \<open>conn.rollback()\<close> and the \<open>conn.close()\<close> of \<open>finally\<close> raise in
  turn and that exception leaves the function. Any later exception is
  handled by a rollback and then \<open>st.error(prefix, e)\<close>, a call with two
  positional arguments; \<open>finally\<close> closes the connection.
\<close>

definition delete_record :: "faults \<Rightarrow> pyval \<Rightarrow> string \<Rightarrow> string \<Rightarrow> world \<Rightarrow> unit outcome \<times> world" where
  "delete_record f identifier table_name identifier_column w =
     (case f Connect (disk w) of
        Some e \<Rightarrow> (Raised PyException, w)
      | None \<Rightarrow>
          (case exec_all f (delete_stmts (bind_param identifier) table_name identifier_column) (disk w) of
             Inr d' \<Rightarrow> (Returned (), w\<lparr>disk := d'\<rparr>)
           | Inl e \<Rightarrow> st_error [Str (delete_prefix e), Exc e] w))"

text \<open>
  The Delete Record form: the record is chosen by the identifier column of
  the selected table, \<open>Botperson_Name\<close> for \<open>Bots\<close> and \<open>ID\<close> otherwise
  (\<open>Bot_ID\<close> for the link table), and the chosen entry is a string. A name
  that is not the text of a number is compared as text by a column of any
  declared type.
\<close>

definition identifier_column_of :: "string \<Rightarrow> string" where
  "identifier_column_of table_name = (if table_name = ''Bots'' then ''Botperson_Name'' else ''ID'')"

definition delete_form_submit :: "faults \<Rightarrow> string \<Rightarrow> string \<Rightarrow> world \<Rightarrow> unit outcome \<times> world" where
  "delete_form_submit f record_identifier table_name w =
     delete_record f (PStr record_identifier) table_name
       (if table_name = ''BotKnowledgeLink'' then ''Bot_ID'' else identifier_column_of table_name) w"

section \<open>\<open>update_record\<close> and the Update Record form\<close>

definition py_notna :: "pyval \<Rightarrow> bool" where
  "py_notna v = (v \<noteq> PNone \<and> v \<noteq> PNaN)"

definition processed :: "pyval \<Rightarrow> pyval" where
  "processed v = (if py_notna v \<and> v \<noteq> PStr ''None'' then v else PNone)"

definition processed_data :: "(string \<times> pyval) list \<Rightarrow> (string \<times> sqlval) list" where
  "processed_data data = map (\<lambda>(k, v). (k, bind_param (processed v))) data"

definition update_prefix :: "error \<Rightarrow> string" where
  "update_prefix e =
     (if is_DatabaseError e then ''Database error:'' else ''An unexpected error occurred:'')"

text \<open>
  \<open>data\<close> is the dict as its list of items. The handlers call
  \<open>st.error(prefix, e)\<close> with two positional arguments and do not roll back:
  closing the connection discards the uncommitted update. \<open>finally\<close> closes
  the connection and then clears the cache. When \<open>connect\<close> itself raises,
  the \<open>conn.close()\<close> of \<open>finally\<close> raises on the unbound name before the
  cache is cleared.
\<close>

definition update_record ::
  "faults \<Rightarrow> pyval \<Rightarrow> (string \<times> pyval) list \<Rightarrow> string \<Rightarrow> string \<Rightarrow> world \<Rightarrow> unit outcome \<times> world" where
  "update_record f record_id data table_name column_name w =
     (case f Connect (disk w) of
        Some e \<Rightarrow> (Raised PyException, snd (st_error [Str (update_prefix e), Exc e] w))
      | None \<Rightarrow>
          (case exec_all f
                  [Update_where table_name (processed_data data) column_name (bind_param record_id),
                   Commit] (disk w) of
             Inr d' \<Rightarrow> (Returned (), w\<lparr>disk := d', cache := []\<rparr>)
           | Inl e \<Rightarrow>
               (case st_error [Str (update_prefix e), Exc e] w of
                  (out, w') \<Rightarrow> (out, w'\<lparr>cache := []\<rparr>))))"

section \<open>The link synchroniser\<close>

definition link_row :: "sqlval \<Rightarrow> sqlval \<Rightarrow> row" where
  "link_row b k = [(''Bot_ID'', b), (''KnowledgeBase_ID'', k)]"

definition select_link :: "sqlval \<Rightarrow> sqlval \<Rightarrow> db \<Rightarrow> row list" where
  "select_link b k d =
     filter (\<lambda>r. matches ''Bot_ID'' b r \<and> matches ''KnowledgeBase_ID'' k r) (BotKnowledgeLink d)"

text \<open>The loop of \<open>link_bot_to_knowledgebase\<close>: SELECT, and INSERT when nothing was fetched.\<close>

fun link_loop :: "faults \<Rightarrow> sqlval \<Rightarrow> sqlval list \<Rightarrow> db \<Rightarrow> error + db" where
  "link_loop f b [] d = Inr d"
| "link_loop f b (k # ks) d =
     (case exec f (Select_link b k) d of
        Inl e \<Rightarrow> Inl e
      | Inr _ \<Rightarrow>
          (if select_link b k d = [] then
             (case exec f (Insert_into ''BotKnowledgeLink'' (link_row b k)) d of
                Inl e \<Rightarrow> Inl e
              | Inr d' \<Rightarrow> link_loop f b ks d')
           else link_loop f b ks d))"

text \<open>
  \<open>connect\<close> is outside the \<open>try\<close>. \<open>with conn\<close> commits when the loop ends
  and rolls back when it raises; only a \<open>sqlite3.Error\<close> is handled, by a
  message; \<open>finally\<close> closes the connection.
\<close>

definition link_bot_to_knowledgebase ::
  "faults \<Rightarrow> pyval \<Rightarrow> pyval list \<Rightarrow> world \<Rightarrow> unit outcome \<times> world" where
  "link_bot_to_knowledgebase f bot_id kb_ids w =
     (case f Connect (disk w) of
        Some e \<Rightarrow> (Raised e, w)
      | None \<Rightarrow>
          (case (case link_loop f (bind_param bot_id) (map bind_param kb_ids) (disk w) of
                   Inl e \<Rightarrow> Inl e
                 | Inr d' \<Rightarrow> exec f Commit d') of
             Inr d' \<Rightarrow> (Returned (), w\<lparr>disk := d'\<rparr>)
           | Inl e \<Rightarrow>
               (if is_sqlite_Error e
                then st_error [Fmt ''An error occurred: '' e] w
                else (Raised e, w))))"

text \<open>
  \<open>update_bot_knowledge_links\<close> has no handler and closes the connection
  only after the commit. Its arguments are integers, on which the \<open>int(...)\<close>
  conversions of the source are the identity.
\<close>

definition replace_stmts :: "int \<Rightarrow> int list \<Rightarrow> stmt list" where
  "replace_stmts bot_id kb_ids_selected =
     Delete_where ''BotKnowledgeLink'' ''Bot_ID'' (SInt bot_id)
     # map (\<lambda>kb_id. Insert_into ''BotKnowledgeLink'' (link_row (SInt bot_id) (SInt kb_id))) kb_ids_selected
     @ [Commit]"

definition update_bot_knowledge_links ::
  "faults \<Rightarrow> int \<Rightarrow> int list \<Rightarrow> world \<Rightarrow> unit outcome \<times> world" where
  "update_bot_knowledge_links f bot_id kb_ids_selected w =
     (case f Connect (disk w) of
        Some e \<Rightarrow> (Raised e, w)
      | None \<Rightarrow>
          (case exec_all f (replace_stmts bot_id kb_ids_selected) (disk w) of
             Inl e \<Rightarrow> (Raised e, w\<lparr>conns := conns w + 1\<rparr>)
           | Inr d' \<Rightarrow> (Returned (), w\<lparr>disk := d'\<rparr>)))"

text \<open>
  The submit branch of the Update Record form: the text inputs with the
  empty string turned into \<open>None\<close>, \<open>update_record\<close>, then the links when
  the selected record has a (truthy) \<open>Bot_ID\<close>. The form passes the chosen
  identifier as text, and SQLite compares the identifier column with it
  after applying the column's type affinity, which depends on the declared
  type of that column; the declaration is not in the repository, so
  \<open>affinity s\<close> is the value the text \<open>s\<close> is compared as: \<open>PStr s\<close> for a
  text column, and for an integer column \<open>PInt n\<close> when \<open>s\<close> is the decimal
  text of \<open>n\<close>.
\<close>

definition form_data :: "(string \<times> string) list \<Rightarrow> (string \<times> pyval) list" where
  "form_data updated_data = map (\<lambda>(k, v). (k, if v \<noteq> [] then PStr v else PNone)) updated_data"

definition update_form_submit ::
  "faults \<Rightarrow> (string \<Rightarrow> pyval) \<Rightarrow> string \<Rightarrow> (string \<times> string) list \<Rightarrow> string \<Rightarrow> int option
     \<Rightarrow> int list \<Rightarrow> world \<Rightarrow> unit outcome \<times> world" where
  "update_form_submit f affinity record_identifier updated_data table_name bot_id kb_ids w =
     (case update_record f (affinity record_identifier) (form_data updated_data) table_name
             (identifier_column_of table_name) w of
        (Raised e, w') \<Rightarrow> (Raised e, w')
      | (Returned u, w') \<Rightarrow>
          (case bot_id of
             None \<Rightarrow> (Returned (), w')
           | Some b \<Rightarrow> if b \<noteq> 0 then update_bot_knowledge_links f b kb_ids w' else (Returned (), w')))"

section \<open>Auxiliary definitions for the proofs\<close>

text \<open>The statements of a sequence without the failures: what the sequence does when nothing raises.\<close>

fun run_all :: "stmt list \<Rightarrow> db \<Rightarrow> db option" where
  "run_all [] d = Some d"
| "run_all (s # ss) d = (case run s d of None \<Rightarrow> None | Some d' \<Rightarrow> run_all ss d')"

text \<open>The rows a \<open>DELETE ... WHERE c = v\<close> keeps.\<close>

definition not_matching :: "string \<Rightarrow> sqlval \<Rightarrow> row list \<Rightarrow> row list" where
  "not_matching c v rs = filter (\<lambda>r. \<not> matches c v r) rs"

text \<open>
  A small store: the bots Aida (key 7) and Bo (key 8), the knowledge entries
  5 and 6, and the links (7, 5) and (8, 6). \<open>fail_insert b k\<close> is the store
  on which inserting the link (b, k) violates a constraint and nothing else
  fails.
\<close>

definition aida :: row where
  "aida = [(''Bot_ID'', SInt 7), (''Botperson_Name'', SText ''Aida''), (''Role'', SText ''Support'')]"

definition bo :: row where
  "bo = [(''Bot_ID'', SInt 8), (''Botperson_Name'', SText ''Bo''), (''Role'', SText ''Sales'')]"

definition store0 :: db where
  "store0 = \<lparr>Bots = [aida, bo],
             KnowledgeBase = [[(''ID'', SInt 5)], [(''ID'', SInt 6)]],
             BotKnowledgeLink = [link_row (SInt 7) (SInt 5), link_row (SInt 8) (SInt 6)]\<rparr>"

definition world0 :: world where
  "world0 = \<lparr>disk = store0, cache = [], ui = [], conns = 0\<rparr>"

definition fail_insert :: "int \<Rightarrow> int \<Rightarrow> faults" where
  "fail_insert b k =
     (\<lambda>s d. if s = Insert_into ''BotKnowledgeLink'' (link_row (SInt b) (SInt k))
            then Some IntegrityError else None)"

text \<open>
  A store whose knowledge entries carry their columns, and the reading of
  the form's text by an integer identifier column, on the texts of the keys
  5 and 6.
\<close>

definition library0 :: world where
  "library0 = world0\<lparr>disk := store0\<lparr>KnowledgeBase :=
     [[(''ID'', SInt 5), (''Content'', SText ''Fees''), (''Metadata'', SText ''v1'')],
      [(''ID'', SInt 6), (''Content'', SText ''Hours''), (''Metadata'', SText ''v1'')]]\<rparr>\<rparr>"

definition key_text :: "string \<Rightarrow> pyval" where
  "key_text s = (if s = ''5'' then PInt 5 else if s = ''6'' then PInt 6 else PStr s)"

text \<open>
  Referential integrity of the join table: a link row has a parent when
  some row of the parent table carries, in its key column, the value the
  link row has in its reference column. A NULL reference has no parent.
\<close>

definition has_parent :: "string \<Rightarrow> row list \<Rightarrow> string \<Rightarrow> row \<Rightarrow> bool" where
  "has_parent key parents col l =
     (case map_of l col of None \<Rightarrow> False | Some v \<Rightarrow> list_ex (matches key v) parents)"

definition no_dangling :: "db \<Rightarrow> bool" where
  "no_dangling d =
     list_all (\<lambda>l. has_parent ''Bot_ID'' (Bots d) ''Bot_ID'' l
                  \<and> has_parent ''ID'' (KnowledgeBase d) ''KnowledgeBase_ID'' l)
       (BotKnowledgeLink d)"

definition bot_exists :: "int \<Rightarrow> db \<Rightarrow> bool" where
  "bot_exists b d = list_ex (matches ''Bot_ID'' (SInt b)) (Bots d)"

definition knowledge_exists :: "int \<Rightarrow> db \<Rightarrow> bool" where
  "knowledge_exists k d = list_ex (matches ''ID'' (SInt k)) (KnowledgeBase d)"

text \<open>
  The states reached from \<open>w\<close> by calls of the writing functions, each with
  failures of its own: linking and replacing links with the keys of rows
  that exist, deleting a bot by \<open>Bot_ID\<close> and a knowledge entry by \<open>ID\<close>, and
  updating a row of \<open>Bots\<close> or \<open>KnowledgeBase\<close> without assigning a key column
  (the form leaves \<open>Bot_ID\<close> and \<open>ID\<close> out of its inputs).
\<close>

inductive reaches :: "world \<Rightarrow> world \<Rightarrow> bool" where
  start: "reaches w w"
| link: "reaches w w1 \<Longrightarrow> bot_exists b (disk w1) \<Longrightarrow>
         list_all (\<lambda>k. knowledge_exists k (disk w1)) ks \<Longrightarrow>
         w2 = snd (link_bot_to_knowledgebase f (PInt b) (map PInt ks) w1) \<Longrightarrow> reaches w w2"
| replace: "reaches w w1 \<Longrightarrow> bot_exists b (disk w1) \<Longrightarrow>
         list_all (\<lambda>k. knowledge_exists k (disk w1)) ks \<Longrightarrow>
         w2 = snd (update_bot_knowledge_links f b ks w1) \<Longrightarrow> reaches w w2"
| delete_bot: "reaches w w1 \<Longrightarrow>
         w2 = snd (delete_record f i ''Bots'' ''Bot_ID'' w1) \<Longrightarrow> reaches w w2"
| delete_knowledge: "reaches w w1 \<Longrightarrow>
         w2 = snd (delete_record f i ''KnowledgeBase'' ''ID'' w1) \<Longrightarrow> reaches w w2"
| update: "reaches w w1 \<Longrightarrow> table_name \<noteq> ''BotKnowledgeLink'' \<Longrightarrow>
         ''Bot_ID'' \<notin> fst ` set data \<Longrightarrow> ''ID'' \<notin> fst ` set data \<Longrightarrow>
         w2 = snd (update_record f i data table_name column_name w1) \<Longrightarrow> reaches w w2"

section \<open>Basic facts about statements\<close>

lemmas eval_defs = aida_def bo_def store0_def world0_def fail_insert_def no_faults_def link_row_def
  exec_def get_table_def put_table_def matches_def

lemmas op_defs = link_bot_to_knowledgebase_def update_bot_knowledge_links_def replace_stmts_def
  delete_record_def delete_stmts_def delete_form_submit_def identifier_column_of_def
  update_record_def processed_data_def processed_def py_notna_def form_data_def update_form_submit_def
  select_link_def load_data_def load_data_body_def st_error_def delete_prefix_def update_prefix_def

lemmas inv_defs = no_dangling_def has_parent_def bot_exists_def knowledge_exists_def

lemma st_error_two [simp]: "st_error [a, b] w = (Raised PyException, w)"
  by (simp add: st_error_def)

lemma st_error_one [simp]: "st_error [a] w = (Returned (), w\<lparr>ui := ui w @ [a]\<rparr>)"
  by (simp add: st_error_def)

lemma sql_eq_iff: "sql_eq a b \<longleftrightarrow> a = b \<and> a \<noteq> SNull"
  by (cases a; cases b) auto

lemma exec_Inr: "exec f s d = Inr d' \<Longrightarrow> run s d = Some d'"
  by (auto simp: exec_def split: option.splits)

lemma exec_all_Inr: "exec_all f ss d = Inr d' \<Longrightarrow> run_all ss d = Some d'"
  by (induction ss arbitrary: d) (auto split: sum.splits dest: exec_Inr)

lemma run_all_inserts:
  "run_all (map (\<lambda>k. Insert_into ''BotKnowledgeLink'' (link_row (SInt b) (SInt k))) ks @ [Commit]) d
     = Some (d\<lparr>BotKnowledgeLink := BotKnowledgeLink d @ map (\<lambda>k. link_row (SInt b) (SInt k)) ks\<rparr>)"
  by (induction ks arbitrary: d) (simp_all add: get_table_def put_table_def)

lemma run_all_replace:
  "run_all (replace_stmts b ks) d =
     Some (d\<lparr>BotKnowledgeLink := not_matching ''Bot_ID'' (SInt b) (BotKnowledgeLink d)
                @ map (\<lambda>k. link_row (SInt b) (SInt k)) ks\<rparr>)"
  unfolding replace_stmts_def not_matching_def
  by (simp add: run_all_inserts get_table_def put_table_def)

lemma run_all_delete_bots:
  "run_all (delete_stmts v ''Bots'' c) d =
     Some (d\<lparr>BotKnowledgeLink := not_matching ''Bot_ID'' v (BotKnowledgeLink d),
             Bots := not_matching c v (Bots d)\<rparr>)"
  by (simp add: delete_stmts_def get_table_def put_table_def not_matching_def)

lemma run_all_delete_kb:
  "run_all (delete_stmts v ''KnowledgeBase'' c) d =
     Some (d\<lparr>BotKnowledgeLink := not_matching ''KnowledgeBase_ID'' v (BotKnowledgeLink d),
             KnowledgeBase := not_matching c v (KnowledgeBase d)\<rparr>)"
  by (simp add: delete_stmts_def get_table_def put_table_def not_matching_def)

lemma matches_link_row_bot: "matches ''Bot_ID'' (SInt b) (link_row (SInt b') k) = (b' = b)"
  by (simp add: matches_def link_row_def)

lemma not_matching_idem: "not_matching c v (not_matching c v rs) = not_matching c v rs"
  by (simp add: not_matching_def)

lemma not_matching_append: "not_matching c v (rs @ ss) = not_matching c v rs @ not_matching c v ss"
  by (simp add: not_matching_def)

lemma not_matching_new_links:
  "not_matching ''Bot_ID'' (SInt b) (map (\<lambda>k. link_row (SInt b) (SInt k)) ks) = []"
  by (induction ks) (simp_all add: not_matching_def matches_link_row_bot)

text \<open>
  What each writing function can leave on disk: the database it found, or
  the result of all its statements.
\<close>

lemma delete_record_disk:
  "disk (snd (delete_record f i t c w)) = disk w \<or>
   run_all (delete_stmts (bind_param i) t c) (disk w) = Some (disk (snd (delete_record f i t c w)))"
  by (auto simp: delete_record_def split: option.splits sum.splits dest: exec_all_Inr)

lemma update_links_disk:
  "disk (snd (update_bot_knowledge_links f b ks w)) = disk w \<or>
   run_all (replace_stmts b ks) (disk w) = Some (disk (snd (update_bot_knowledge_links f b ks w)))"
  by (auto simp: update_bot_knowledge_links_def split: option.splits sum.splits dest: exec_all_Inr)

lemma update_links_result:
  "run_all (replace_stmts b ks) (disk w) = Some d' \<Longrightarrow>
   BotKnowledgeLink d' = not_matching ''Bot_ID'' (SInt b) (BotKnowledgeLink (disk w))
                           @ map (\<lambda>k. link_row (SInt b) (SInt k)) ks
   \<and> Bots d' = Bots (disk w) \<and> KnowledgeBase d' = KnowledgeBase (disk w)"
  by (auto simp: run_all_replace)

lemma delete_bots_result:
  "run_all (delete_stmts v ''Bots'' c) (disk w) = Some d' \<Longrightarrow>
   BotKnowledgeLink d' = not_matching ''Bot_ID'' v (BotKnowledgeLink (disk w))
   \<and> Bots d' = not_matching c v (Bots (disk w)) \<and> KnowledgeBase d' = KnowledgeBase (disk w)"
  by (auto simp: run_all_delete_bots)

lemma delete_kb_result:
  "run_all (delete_stmts v ''KnowledgeBase'' c) (disk w) = Some d' \<Longrightarrow>
   BotKnowledgeLink d' = not_matching ''KnowledgeBase_ID'' v (BotKnowledgeLink (disk w))
   \<and> KnowledgeBase d' = not_matching c v (KnowledgeBase (disk w)) \<and> Bots d' = Bots (disk w)"
  by (auto simp: run_all_delete_kb)

section \<open>Replacing the links of a bot\<close>

text \<open>
  C2. When \<open>update_bot_knowledge_links\<close> fails, at the insertion of any of the
  new links or anywhere else, nothing of it is committed: the database on
  disk, and so the set of link rows of that bot, is what it was before the
  call. The links deleted in the first phase are not left deleted.
\<close>

theorem update_bot_knowledge_links_atomic:
  "update_bot_knowledge_links f b ks w = (Raised e, w') \<Longrightarrow> disk w' = disk w"
  by (auto simp: update_bot_knowledge_links_def split: option.splits sum.splits)

theorem update_bot_knowledge_links_atomic_witness:
  "update_bot_knowledge_links (fail_insert 7 6) 7 [5, 6] world0
     = (Raised IntegrityError, world0\<lparr>conns := 1\<rparr>)
   \<and> disk (world0\<lparr>conns := 1\<rparr>) = store0"
proof -
  have h: "update_bot_knowledge_links (fail_insert 7 6) 7 [5, 6] world0
             = (Raised IntegrityError, world0\<lparr>conns := 1\<rparr>)"
    by (simp add: update_bot_knowledge_links_def replace_stmts_def eval_defs)
  from update_bot_knowledge_links_atomic [OF h] h show ?thesis
    by (simp add: world0_def)
qed

text \<open>
  C5. When \<open>update_bot_knowledge_links\<close> succeeds for the bot key \<open>b\<close> and the
  keys \<open>ks\<close>, the link rows of \<open>b\<close> are exactly one fresh row \<open>(b, k)\<close> for each
  \<open>k\<close> of \<open>ks\<close>, in that order; as a set, \<open>{(b, k) | k \<in> ks}\<close>. From the links
  \<open>[k1]\<close>, replacing with \<open>[k2]\<close> leaves exactly \<open>(b, k2)\<close>.
\<close>

theorem update_bot_knowledge_links_replaces:
  assumes "update_bot_knowledge_links f b ks w = (Returned u, w')"
  shows "filter (matches ''Bot_ID'' (SInt b)) (BotKnowledgeLink (disk w'))
           = map (\<lambda>k. link_row (SInt b) (SInt k)) ks
         \<and> {r \<in> set (BotKnowledgeLink (disk w')). matches ''Bot_ID'' (SInt b) r}
           = {link_row (SInt b) (SInt k) | k. k \<in> set ks}"
proof -
  from assms have "exec_all f (replace_stmts b ks) (disk w) = Inr (disk w')"
    by (auto simp: update_bot_knowledge_links_def split: option.splits sum.splits)
  then have "run_all (replace_stmts b ks) (disk w) = Some (disk w')"
    by (rule exec_all_Inr)
  then have links: "BotKnowledgeLink (disk w') =
      not_matching ''Bot_ID'' (SInt b) (BotKnowledgeLink (disk w)) @ map (\<lambda>k. link_row (SInt b) (SInt k)) ks"
    by (simp add: update_links_result)
  have list: "filter (matches ''Bot_ID'' (SInt b)) (BotKnowledgeLink (disk w'))
           = map (\<lambda>k. link_row (SInt b) (SInt k)) ks"
    by (simp add: links not_matching_def matches_link_row_bot filter_map comp_def)
  have "{r \<in> set (BotKnowledgeLink (disk w')). matches ''Bot_ID'' (SInt b) r}
          = set (filter (matches ''Bot_ID'' (SInt b)) (BotKnowledgeLink (disk w')))"
    by simp
  also have "\<dots> = {link_row (SInt b) (SInt k) | k. k \<in> set ks}"
    unfolding list by auto
  finally show ?thesis using list by simp
qed

theorem update_bot_knowledge_links_replaces_witness:
  "update_bot_knowledge_links no_faults 7 [6] world0
     = (Returned (), world0\<lparr>disk := store0\<lparr>BotKnowledgeLink :=
          [link_row (SInt 8) (SInt 6), link_row (SInt 7) (SInt 6)]\<rparr>\<rparr>)
   \<and> filter (matches ''Bot_ID'' (SInt 7)) [link_row (SInt 8) (SInt 6), link_row (SInt 7) (SInt 6)]
       = [link_row (SInt 7) (SInt 6)]"
proof -
  have h: "update_bot_knowledge_links no_faults 7 [6] world0
     = (Returned (), world0\<lparr>disk := store0\<lparr>BotKnowledgeLink :=
          [link_row (SInt 8) (SInt 6), link_row (SInt 7) (SInt 6)]\<rparr>\<rparr>)"
    by (simp add: update_bot_knowledge_links_def replace_stmts_def eval_defs)
  from update_bot_knowledge_links_replaces [OF h] h show ?thesis
    by simp
qed

section \<open>Linking without duplicates\<close>

lemma select_link_int:
  "select_link (SInt b) (SInt k) d =
     filter (\<lambda>r. map_of r ''Bot_ID'' = Some (SInt b) \<and> map_of r ''KnowledgeBase_ID'' = Some (SInt k))
       (BotKnowledgeLink d)"
  unfolding select_link_def matches_def
  by (rule filter_cong) (auto simp: sql_eq_iff split: option.splits)

lemma select_link_insert:
  "select_link (SInt b) (SInt k') (d\<lparr>BotKnowledgeLink := BotKnowledgeLink d @ [link_row (SInt b) (SInt k)]\<rparr>)
     = select_link (SInt b) (SInt k') d @ (if k' = k then [link_row (SInt b) (SInt k)] else [])"
  by (simp add: select_link_int link_row_def)

lemma exec_insert_link:
  "exec f (Insert_into ''BotKnowledgeLink'' r) d = Inr d' \<Longrightarrow>
   d' = d\<lparr>BotKnowledgeLink := BotKnowledgeLink d @ [r]\<rparr>"
  by (auto dest!: exec_Inr simp: get_table_def put_table_def)

text \<open>
  The loop, whatever raises: when it ends, a pair asked for and absent has
  one row, and every other pair has the rows it had.
\<close>

lemma link_loop_count:
  "link_loop f (SInt b) (map SInt ks) d = Inr d' \<Longrightarrow>
   length (select_link (SInt b) (SInt k) d') =
     (if k \<in> set ks \<and> select_link (SInt b) (SInt k) d = [] then 1
      else length (select_link (SInt b) (SInt k) d))"
proof (induction ks arbitrary: d)
  case Nil
  then show ?case by simp
next
  case (Cons a ks)
  show ?case
  proof (cases "select_link (SInt b) (SInt a) d = []")
    case True
    with Cons.prems obtain d1
      where d1: "exec f (Insert_into ''BotKnowledgeLink'' (link_row (SInt b) (SInt a))) d = Inr d1"
        and rest: "link_loop f (SInt b) (map SInt ks) d1 = Inr d'"
      by (auto split: sum.splits)
    from d1 have d1': "d1 = d\<lparr>BotKnowledgeLink := BotKnowledgeLink d @ [link_row (SInt b) (SInt a)]\<rparr>"
      by (rule exec_insert_link)
    from Cons.IH [OF rest] True show ?thesis
      by (auto simp: d1' select_link_insert)
  next
    case False
    with Cons.prems have rest: "link_loop f (SInt b) (map SInt ks) d = Inr d'"
      by (auto split: sum.splits)
    from Cons.IH [OF rest] False show ?thesis
      by auto
  qed
qed

lemma link_loop_no_faults_total: "\<exists>d'. link_loop no_faults b ks d = Inr d'"
  by (induction ks arbitrary: d) (auto simp: exec_def no_faults_def get_table_def)

lemma link_loop_present:
  "\<forall>k \<in> set ks. select_link b k d \<noteq> [] \<Longrightarrow> link_loop no_faults b ks d = Inr d"
  by (induction ks) (auto simp: exec_def no_faults_def)

lemma link_disk:
  "disk (snd (link_bot_to_knowledgebase f b ks w)) = disk w \<or>
   link_loop f (bind_param b) (map bind_param ks) (disk w)
     = Inr (disk (snd (link_bot_to_knowledgebase f b ks w)))"
  by (auto simp: link_bot_to_knowledgebase_def split: option.splits sum.splits dest: exec_Inr)

lemma link_disk_no_faults:
  "link_loop no_faults (bind_param b) (map bind_param ks) (disk w)
     = Inr (disk (snd (link_bot_to_knowledgebase no_faults b ks w)))"
  using link_loop_no_faults_total [of "bind_param b" "map bind_param ks" "disk w"]
  by (auto simp: link_bot_to_knowledgebase_def exec_def no_faults_def)

text \<open>
  On a numeric bot key \<open>b\<close> and numeric knowledge keys \<open>ks\<close> the function
  is idempotent: when nothing fails, a second call with the same arguments
  leaves the database of the first, and after the first each pair \<open>(b, k)\<close>
  with \<open>k\<close> in \<open>ks\<close> has one row if it had none and the rows it had
  otherwise, however often \<open>k\<close> occurs in \<open>ks\<close>. Whatever fails, a call never
  takes a pair beyond one row unless it had more before. The keys are
  numbers here: the existence check compares with \<open>=\<close>, which finds no row
  for a key of \<open>None\<close>.
\<close>

theorem link_bot_to_knowledgebase_idempotent:
  fixes b k :: int and ks :: "int list"
  shows
  "(let once = snd (link_bot_to_knowledgebase no_faults (PInt b) (map PInt ks) w);
        twice = snd (link_bot_to_knowledgebase no_faults (PInt b) (map PInt ks) once)
    in disk twice = disk once
       \<and> (k \<in> set ks \<longrightarrow>
            length (select_link (SInt b) (SInt k) (disk once))
              = max 1 (length (select_link (SInt b) (SInt k) (disk w)))))
   \<and> length (select_link (SInt b) (SInt k)
        (disk (snd (link_bot_to_knowledgebase f (PInt b) (map PInt ks) w))))
       \<le> max 1 (length (select_link (SInt b) (SInt k) (disk w)))"
proof -
  let ?once = "snd (link_bot_to_knowledgebase no_faults (PInt b) (map PInt ks) w)"
  let ?twice = "snd (link_bot_to_knowledgebase no_faults (PInt b) (map PInt ks) ?once)"
  let ?any = "snd (link_bot_to_knowledgebase f (PInt b) (map PInt ks) w)"
  have first: "link_loop no_faults (SInt b) (map SInt ks) (disk w) = Inr (disk ?once)"
    using link_disk_no_faults [of "PInt b" "map PInt ks" w] by (simp add: comp_def)
  have cnt: "length (select_link (SInt b) (SInt j) (disk ?once)) =
     (if j \<in> set ks \<and> select_link (SInt b) (SInt j) (disk w) = [] then 1
      else length (select_link (SInt b) (SInt j) (disk w)))" for j
    by (rule link_loop_count [OF first])
  have present: "\<forall>x \<in> set (map SInt ks). select_link (SInt b) x (disk ?once) \<noteq> []"
  proof
    fix x assume "x \<in> set (map SInt ks)"
    then obtain j where j: "j \<in> set ks" "x = SInt j" by auto
    have "length (select_link (SInt b) (SInt j) (disk ?once)) \<noteq> 0"
      using cnt [of j] j by (auto split: if_splits)
    then show "select_link (SInt b) x (disk ?once) \<noteq> []" using j by simp
  qed
  have second: "link_loop no_faults (SInt b) (map SInt ks) (disk ?once) = Inr (disk ?twice)"
    using link_disk_no_faults [of "PInt b" "map PInt ks" ?once] by (simp add: comp_def)
  have idem: "disk ?twice = disk ?once"
    using link_loop_present [OF present] second by simp
  have exact: "k \<in> set ks \<longrightarrow>
      length (select_link (SInt b) (SInt k) (disk ?once))
        = max 1 (length (select_link (SInt b) (SInt k) (disk w)))"
    using cnt [of k] by (cases "select_link (SInt b) (SInt k) (disk w)") auto
  have any: "length (select_link (SInt b) (SInt k) (disk ?any))
       \<le> max 1 (length (select_link (SInt b) (SInt k) (disk w)))"
    using link_disk [of f "PInt b" "map PInt ks" w]
  proof
    assume "disk ?any = disk w"
    then show ?thesis by simp
  next
    assume "link_loop f (bind_param (PInt b)) (map bind_param (map PInt ks)) (disk w) = Inr (disk ?any)"
    then have "link_loop f (SInt b) (map SInt ks) (disk w) = Inr (disk ?any)"
      by (simp add: comp_def)
    from link_loop_count [OF this, of k] show ?thesis
      by (auto split: if_splits)
  qed
  from idem exact any show ?thesis by (simp add: Let_def)
qed

theorem link_bot_to_knowledgebase_idempotent_witness:
  "(6::int) \<in> set [6, 6] \<and>
   disk (snd (link_bot_to_knowledgebase no_faults (PInt 7) [PInt 6, PInt 6] world0))
     = store0\<lparr>BotKnowledgeLink :=
         [link_row (SInt 7) (SInt 5), link_row (SInt 8) (SInt 6), link_row (SInt 7) (SInt 6)]\<rparr> \<and>
   length (select_link (SInt 7) (SInt 6)
     (disk (snd (link_bot_to_knowledgebase no_faults (PInt 7) [PInt 6, PInt 6] world0)))) = 1"
  using link_bot_to_knowledgebase_idempotent [of 7 "[6, 6]" world0 6 no_faults]
  by (simp add: link_bot_to_knowledgebase_def select_link_def eval_defs)

section \<open>What the link operations leave alone\<close>

lemma frame_update_links:
  "not_matching ''Bot_ID'' (SInt b) (BotKnowledgeLink (disk (snd (update_bot_knowledge_links f b ks w))))
     = not_matching ''Bot_ID'' (SInt b) (BotKnowledgeLink (disk w))
   \<and> Bots (disk (snd (update_bot_knowledge_links f b ks w))) = Bots (disk w)
   \<and> KnowledgeBase (disk (snd (update_bot_knowledge_links f b ks w))) = KnowledgeBase (disk w)"
  using update_links_disk [of f b ks w]
proof
  assume "disk (snd (update_bot_knowledge_links f b ks w)) = disk w"
  then show ?thesis by simp
next
  assume "run_all (replace_stmts b ks) (disk w) = Some (disk (snd (update_bot_knowledge_links f b ks w)))"
  from update_links_result [OF this] show ?thesis
    by (simp add: not_matching_append not_matching_idem not_matching_new_links)
qed

lemma frame_delete_bots:
  "not_matching ''Bot_ID'' (bind_param i) (BotKnowledgeLink (disk (snd (delete_record f i ''Bots'' c w))))
     = not_matching ''Bot_ID'' (bind_param i) (BotKnowledgeLink (disk w))
   \<and> not_matching c (bind_param i) (Bots (disk (snd (delete_record f i ''Bots'' c w))))
     = not_matching c (bind_param i) (Bots (disk w))
   \<and> KnowledgeBase (disk (snd (delete_record f i ''Bots'' c w))) = KnowledgeBase (disk w)"
  using delete_record_disk [of f i "''Bots''" c w]
proof
  assume "disk (snd (delete_record f i ''Bots'' c w)) = disk w"
  then show ?thesis by simp
next
  assume "run_all (delete_stmts (bind_param i) ''Bots'' c) (disk w)
            = Some (disk (snd (delete_record f i ''Bots'' c w)))"
  from delete_bots_result [OF this] show ?thesis
    by (simp add: not_matching_idem)
qed

lemma frame_delete_kb:
  "not_matching ''KnowledgeBase_ID'' (bind_param i)
       (BotKnowledgeLink (disk (snd (delete_record f i ''KnowledgeBase'' c w))))
     = not_matching ''KnowledgeBase_ID'' (bind_param i) (BotKnowledgeLink (disk w))
   \<and> not_matching c (bind_param i) (KnowledgeBase (disk (snd (delete_record f i ''KnowledgeBase'' c w))))
     = not_matching c (bind_param i) (KnowledgeBase (disk w))
   \<and> Bots (disk (snd (delete_record f i ''KnowledgeBase'' c w))) = Bots (disk w)"
  using delete_record_disk [of f i "''KnowledgeBase''" c w]
proof
  assume "disk (snd (delete_record f i ''KnowledgeBase'' c w)) = disk w"
  then show ?thesis by simp
next
  assume "run_all (delete_stmts (bind_param i) ''KnowledgeBase'' c) (disk w)
            = Some (disk (snd (delete_record f i ''KnowledgeBase'' c w)))"
  from delete_kb_result [OF this] show ?thesis
    by (simp add: not_matching_idem)
qed

text \<open>
  C10. The link operations are framed by their key, whatever fails and
  whatever the outcome. \<open>update_bot_knowledge_links b ks\<close> leaves the link rows
  whose \<open>Bot_ID\<close> is not \<open>b\<close> as they were, in their order, and does not touch
  \<open>Bots\<close> and \<open>KnowledgeBase\<close>. \<open>delete_record\<close> on \<open>Bots\<close> leaves the link rows
  whose \<open>Bot_ID\<close> is not the identifier, the \<open>Bots\<close> rows whose identifier
  column is not the identifier, and all of \<open>KnowledgeBase\<close>; on
  \<open>KnowledgeBase\<close> it leaves the link rows whose \<open>KnowledgeBase_ID\<close> is not the
  identifier, the \<open>KnowledgeBase\<close> rows not matching it, and all of \<open>Bots\<close>.
\<close>

theorem link_operations_framed:
  "(let d = disk w; d' = disk (snd (update_bot_knowledge_links f b ks w)) in
      not_matching ''Bot_ID'' (SInt b) (BotKnowledgeLink d') = not_matching ''Bot_ID'' (SInt b) (BotKnowledgeLink d)
      \<and> Bots d' = Bots d \<and> KnowledgeBase d' = KnowledgeBase d)
   \<and> (let d = disk w; d' = disk (snd (delete_record f i ''Bots'' c w)) in
      not_matching ''Bot_ID'' (bind_param i) (BotKnowledgeLink d')
        = not_matching ''Bot_ID'' (bind_param i) (BotKnowledgeLink d)
      \<and> not_matching c (bind_param i) (Bots d') = not_matching c (bind_param i) (Bots d)
      \<and> KnowledgeBase d' = KnowledgeBase d)
   \<and> (let d = disk w; d' = disk (snd (delete_record f i ''KnowledgeBase'' c w)) in
      not_matching ''KnowledgeBase_ID'' (bind_param i) (BotKnowledgeLink d')
        = not_matching ''KnowledgeBase_ID'' (bind_param i) (BotKnowledgeLink d)
      \<and> not_matching c (bind_param i) (KnowledgeBase d') = not_matching c (bind_param i) (KnowledgeBase d)
      \<and> Bots d' = Bots d)"
  unfolding Let_def
  using frame_update_links [of b f ks w] frame_delete_bots [of i f c w] frame_delete_kb [of i f c w]
  by blast

theorem link_operations_framed_witness:
  "BotKnowledgeLink (disk (snd (update_bot_knowledge_links no_faults 7 [6] world0)))
     = [link_row (SInt 8) (SInt 6), link_row (SInt 7) (SInt 6)]
   \<and> not_matching ''Bot_ID'' (SInt 7) (BotKnowledgeLink (disk (snd (update_bot_knowledge_links no_faults 7 [6] world0))))
     = [link_row (SInt 8) (SInt 6)]
   \<and> disk (snd (delete_record no_faults (PInt 7) ''Bots'' ''Bot_ID'' world0))
     = \<lparr>Bots = [bo], KnowledgeBase = [[(''ID'', SInt 5)], [(''ID'', SInt 6)]],
        BotKnowledgeLink = [link_row (SInt 8) (SInt 6)]\<rparr>
   \<and> disk (snd (delete_record no_faults (PInt 5) ''KnowledgeBase'' ''ID'' world0))
     = \<lparr>Bots = [aida, bo], KnowledgeBase = [[(''ID'', SInt 6)]],
        BotKnowledgeLink = [link_row (SInt 8) (SInt 6)]\<rparr>"
  using link_operations_framed [of world0 no_faults 7 "[6]" "PInt 7" "''Bot_ID''"]
    link_operations_framed [of world0 no_faults 7 "[6]" "PInt 5" "''ID''"]
  by (simp add: update_bot_knowledge_links_def replace_stmts_def delete_record_def delete_stmts_def
      not_matching_def eval_defs)

section \<open>Updating a row\<close>

lemma map_of_set_col: "map_of (set_col k v r) c = (if c = k then Some v else map_of r c)"
  by (induction r) auto

lemma map_of_assign_other: "c \<notin> fst ` set as \<Longrightarrow> map_of (assign as r) c = map_of r c"
  by (induction as arbitrary: r) (auto simp: map_of_set_col)

lemma map_of_assign:
  "distinct (map fst as) \<Longrightarrow> (c, v) \<in> set as \<Longrightarrow> map_of (assign as r) c = Some v"
proof (induction as arbitrary: r)
  case Nil
  then show ?case by simp
next
  case (Cons a as)
  obtain k x where a: "a = (k, x)" by (cases a)
  show ?case
  proof (cases "(c, v) = a")
    case True
    with Cons.prems a have "c \<notin> fst ` set as" by auto
    with True a show ?thesis by (simp add: map_of_assign_other map_of_set_col)
  next
    case False
    with Cons.prems have "(c, v) \<in> set as" "distinct (map fst as)" by auto
    with Cons.IH a show ?thesis by simp
  qed
qed

lemma get_put_table: "get_table t d = Some rs \<Longrightarrow> get_table t (put_table t rs' d) = Some rs'"
  by (auto simp: get_table_def put_table_def split: if_splits)

text \<open>
  \<open>update_record\<close> returns exactly when the UPDATE and its commit went
  through: every failure ends in an exception that leaves the function.
\<close>

lemma update_record_success:
  assumes "update_record f record_id data table_name column_name w = (Returned u, w')"
  shows "run (Update_where table_name (processed_data data) column_name (bind_param record_id)) (disk w)
           = Some (disk w')"
  using assms
  by (auto simp: update_record_def split: option.splits sum.splits dest!: exec_Inr)

lemma update_record_raises:
  assumes "exec_all f [Update_where table_name (processed_data data) column_name (bind_param record_id),
                       Commit] (disk w) = Inl e"
  shows "\<exists>w'. update_record f record_id data table_name column_name w = (Raised PyException, w')
              \<and> disk w' = disk w \<and> ui w' = ui w"
  using assms by (auto simp: update_record_def split: option.splits)

lemma run_update_table:
  assumes "run (Update_where t as c v) d = Some d'" and "get_table t d = Some rows"
  shows "get_table t d' = Some (map (\<lambda>r. if matches c v r then assign as r else r) rows)"
  using assms by (auto simp: get_put_table split: if_splits)

lemma processed_data_fst: "map fst (processed_data data) = map fst data"
  by (induction data) (auto simp: processed_data_def)

lemma processed_data_mem:
  "(c, v) \<in> set data \<Longrightarrow> (c, bind_param (processed v)) \<in> set (processed_data data)"
  by (force simp: processed_data_def)

lemma update_record_stores:
  assumes "update_record f record_id data table_name column_name w = (Returned u, w')"
    and "get_table table_name (disk w) = Some rows"
    and "distinct (map fst data)" and "(c, v) \<in> set data"
  shows "get_table table_name (disk w') =
           Some (map (\<lambda>r. if matches column_name (bind_param record_id) r
                           then assign (processed_data data) r else r) rows)"
    and "map_of (assign (processed_data data) r) c = Some (bind_param (processed v))"
proof -
  from update_record_success [OF assms(1)] assms(2)
  show "get_table table_name (disk w') =
           Some (map (\<lambda>r. if matches column_name (bind_param record_id) r
                           then assign (processed_data data) r else r) rows)"
    by (rule run_update_table)
  show "map_of (assign (processed_data data) r) c = Some (bind_param (processed v))"
    using assms(3,4) by (intro map_of_assign) (simp_all add: processed_data_fst processed_data_mem)
qed

text \<open>
  C9. \<open>update_record\<close> turns more than a missing value into NULL. When the
  call returns, the table is the old one with every row matching the key
  reassigned, and in a reassigned row a column whose supplied value is
  NaN/NA or the string \<open>None\<close> holds NULL, so the text \<open>None\<close> itself cannot
  be stored. \<open>data\<close> is a dict: its keys are distinct.
\<close>

theorem update_record_normalizes:
  assumes "update_record f record_id data table_name column_name w = (Returned u, w')"
    and "get_table table_name (disk w) = Some rows"
    and "distinct (map fst data)" and "(c, v) \<in> set data"
    and "v = PNaN \<or> v = PStr ''None''"
  shows "get_table table_name (disk w') =
           Some (map (\<lambda>r. if matches column_name (bind_param record_id) r
                           then assign (processed_data data) r else r) rows)
         \<and> (\<forall>r. map_of (assign (processed_data data) r) c = Some SNull)"
  using update_record_stores [OF assms(1-4)] assms(5)
  by (auto simp: processed_def py_notna_def)

theorem update_record_normalizes_witness:
  "update_record no_faults (PInt 7) [(''Role'', PStr ''None'')] ''Bots'' ''Bot_ID'' world0
     = (Returned (), world0\<lparr>disk := store0\<lparr>Bots :=
          [[(''Bot_ID'', SInt 7), (''Botperson_Name'', SText ''Aida''), (''Role'', SNull)], bo]\<rparr>\<rparr>)
   \<and> map_of (assign (processed_data [(''Role'', PStr ''None'')]) aida) ''Role'' = Some SNull"
proof -
  have h: "update_record no_faults (PInt 7) [(''Role'', PStr ''None'')] ''Bots'' ''Bot_ID'' world0
     = (Returned (), world0\<lparr>disk := store0\<lparr>Bots :=
          [[(''Bot_ID'', SInt 7), (''Botperson_Name'', SText ''Aida''), (''Role'', SNull)], bo]\<rparr>\<rparr>)"
    by (simp add: op_defs eval_defs)
  have t: "get_table ''Bots'' (disk world0) = Some [aida, bo]"
    by (simp add: eval_defs)
  from update_record_normalizes [OF h t, of "''Role''" "PStr ''None''"] h show ?thesis
    by (simp add: world0_def)
qed

subsection \<open>Through the form\<close>

lemma form_data_fst: "map fst (form_data xs) = map fst xs"
  by (induction xs) (auto simp: form_data_def)

lemma form_data_mem:
  "(c, v) \<in> set xs \<Longrightarrow> (c, if v \<noteq> [] then PStr v else PNone) \<in> set (form_data xs)"
  by (force simp: form_data_def)

lemma update_links_table:
  "t \<noteq> ''BotKnowledgeLink'' \<Longrightarrow>
   get_table t (disk (snd (update_bot_knowledge_links f b ks w))) = get_table t (disk w)"
  using frame_update_links [of b f ks w] by (auto simp: get_table_def)

text \<open>
  C6, as the code has it. The text \<open>None\<close> typed into the form is a supplied
  value other than the empty string; the submit returns, and the column
  holds NULL, not the text as given.
\<close>

theorem update_form_none_counterexample:
  "update_form_submit no_faults PStr ''Aida'' [(''Role'', ''None'')] ''Bots'' (Some 7) [5] world0
     = (Returned (), world0\<lparr>disk := store0\<lparr>Bots :=
          [[(''Bot_ID'', SInt 7), (''Botperson_Name'', SText ''Aida''), (''Role'', SNull)], bo],
          BotKnowledgeLink := [link_row (SInt 8) (SInt 6), link_row (SInt 7) (SInt 5)]\<rparr>\<rparr>)"
  by (simp add: op_defs eval_defs)

text \<open>
  C6, amended. For every update of a row of \<open>Bots\<close> or \<open>KnowledgeBase\<close>
  submitted through the Update Record form that returns, whatever the type
  of the identifier column, the rows the chosen identifier matches are
  reassigned, and in a reassigned row a column whose supplied text is the
  empty string or \<open>None\<close> holds NULL and every other supplied text is stored
  as given.
\<close>

theorem update_form_stores:
  assumes "update_form_submit f affinity record_identifier updated_data table_name bot_id kb_ids w
             = (Returned u, w')"
    and "table_name \<noteq> ''BotKnowledgeLink''"
    and "get_table table_name (disk w) = Some rows"
    and "distinct (map fst updated_data)" and "(c, v) \<in> set updated_data"
  shows "get_table table_name (disk w') =
           Some (map (\<lambda>r. if matches (identifier_column_of table_name)
                                (bind_param (affinity record_identifier)) r
                           then assign (processed_data (form_data updated_data)) r else r) rows)
         \<and> (\<forall>r. map_of (assign (processed_data (form_data updated_data)) r) c
                  = Some (if v = [] \<or> v = ''None'' then SNull else SText v))"
proof -
  obtain o1 w1 where u: "update_record f (affinity record_identifier) (form_data updated_data) table_name
             (identifier_column_of table_name) w = (o1, w1)"
    by (cases "update_record f (affinity record_identifier) (form_data updated_data) table_name
             (identifier_column_of table_name) w")
  have ret: "o1 = Returned ()"
  proof (cases o1)
    case (Raised e)
    with assms(1) u show ?thesis by (simp add: update_form_submit_def)
  next
    case (Returned x)
    then show ?thesis by simp
  qed
  have rest: "get_table table_name (disk w') = get_table table_name (disk w1)"
  proof (cases "\<exists>b. bot_id = Some b \<and> b \<noteq> 0")
    case True
    then obtain b where b: "bot_id = Some b" "b \<noteq> 0" by auto
    with assms(1) u ret have "w' = snd (update_bot_knowledge_links f b kb_ids w1)"
      by (simp add: update_form_submit_def)
    then show ?thesis using assms(2) by (simp add: update_links_table)
  next
    case False
    with assms(1) u ret have "w' = w1"
      by (auto simp: update_form_submit_def split: option.splits)
    then show ?thesis by simp
  qed
  have d: "distinct (map fst (form_data updated_data))"
    using assms(4) by (simp add: form_data_fst)
  have m: "(c, if v \<noteq> [] then PStr v else PNone) \<in> set (form_data updated_data)"
    using assms(5) by (rule form_data_mem)
  from update_record_stores [OF u [unfolded ret] assms(3) d m] rest
  show ?thesis
    by (auto simp: processed_def py_notna_def)
qed

theorem update_form_stores_witness:
  "update_form_submit no_faults PStr ''Aida'' [(''Role'', ''''), (''Botperson_Name'', ''Aida B'')] ''Bots''
       (Some 7) [5] world0
     = (Returned (), world0\<lparr>disk := store0\<lparr>Bots :=
          [[(''Bot_ID'', SInt 7), (''Botperson_Name'', SText ''Aida B''), (''Role'', SNull)], bo],
          BotKnowledgeLink := [link_row (SInt 8) (SInt 6), link_row (SInt 7) (SInt 5)]\<rparr>\<rparr>)
   \<and> map_of (assign (processed_data (form_data [(''Role'', ''''), (''Botperson_Name'', ''Aida B'')])) aida)
         ''Role'' = Some SNull
   \<and> map_of (assign (processed_data (form_data [(''Role'', ''''), (''Botperson_Name'', ''Aida B'')])) aida)
         ''Botperson_Name'' = Some (SText ''Aida B'')
   \<and> update_form_submit no_faults key_text ''5'' [(''Content'', ''''), (''Metadata'', ''v2'')]
         ''KnowledgeBase'' None [] library0
     = (Returned (), library0\<lparr>disk := (disk library0)\<lparr>KnowledgeBase :=
          [[(''ID'', SInt 5), (''Content'', SNull), (''Metadata'', SText ''v2'')],
           [(''ID'', SInt 6), (''Content'', SText ''Hours''), (''Metadata'', SText ''v1'')]]\<rparr>\<rparr>)"
proof -
  let ?data = "[(''Role'', ''''), (''Botperson_Name'', ''Aida B'')]"
  have h: "update_form_submit no_faults PStr ''Aida'' ?data ''Bots'' (Some 7) [5] world0
     = (Returned (), world0\<lparr>disk := store0\<lparr>Bots :=
          [[(''Bot_ID'', SInt 7), (''Botperson_Name'', SText ''Aida B''), (''Role'', SNull)], bo],
          BotKnowledgeLink := [link_row (SInt 8) (SInt 6), link_row (SInt 7) (SInt 5)]\<rparr>\<rparr>)"
    by (simp add: op_defs eval_defs)
  have t: "get_table ''Bots'' (disk world0) = Some [aida, bo]"
    by (simp add: eval_defs)
  have k: "update_form_submit no_faults key_text ''5'' [(''Content'', ''''), (''Metadata'', ''v2'')]
         ''KnowledgeBase'' None [] library0
     = (Returned (), library0\<lparr>disk := (disk library0)\<lparr>KnowledgeBase :=
          [[(''ID'', SInt 5), (''Content'', SNull), (''Metadata'', SText ''v2'')],
           [(''ID'', SInt 6), (''Content'', SText ''Hours''), (''Metadata'', SText ''v1'')]]\<rparr>\<rparr>)"
    by (simp add: op_defs eval_defs library0_def key_text_def)
  from update_form_stores [OF h _ t, of "''Role''" "''''"]
       update_form_stores [OF h _ t, of "''Botperson_Name''" "''Aida B''"] h k
  show ?thesis
    by (simp add: world0_def)
qed

section \<open>Referential integrity of the links\<close>

lemma no_dangling_iff:
  "no_dangling d \<longleftrightarrow> (\<forall>l \<in> set (BotKnowledgeLink d).
      has_parent ''Bot_ID'' (Bots d) ''Bot_ID'' l \<and> has_parent ''ID'' (KnowledgeBase d) ''KnowledgeBase_ID'' l)"
  by (simp add: no_dangling_def list_all_iff)

lemma has_parent_link_row:
  "has_parent ''Bot_ID'' P ''Bot_ID'' (link_row b k) = list_ex (matches ''Bot_ID'' b) P"
  "has_parent ''ID'' Q ''KnowledgeBase_ID'' (link_row b k) = list_ex (matches ''ID'' k) Q"
  by (simp_all add: has_parent_def link_row_def)

lemma set_not_matching: "set (not_matching c v rs) = {r \<in> set rs. \<not> matches c v r}"
  by (simp add: not_matching_def)

text \<open>
  A link row that a delete by \<open>v\<close> keeps does not refer to \<open>v\<close>, so its parent
  is not among the parents the same delete removes.
\<close>

lemma has_parent_not_matching:
  assumes "has_parent key P col l" and "\<not> matches col v l"
  shows "has_parent key (not_matching key v P) col l"
proof -
  from assms(1) obtain x p where x: "map_of l col = Some x" and p: "p \<in> set P" "matches key x p"
    by (auto simp: has_parent_def list_ex_iff split: option.splits)
  from assms(2) x have nx: "\<not> sql_eq x v" by (simp add: matches_def)
  from p(2) obtain y where y: "map_of p key = Some y" "sql_eq y x"
    by (auto simp: matches_def split: option.splits)
  then have "y = x" by (simp add: sql_eq_iff)
  with y nx have "\<not> matches key v p" by (simp add: matches_def)
  with p have "p \<in> set (not_matching key v P)" by (simp add: not_matching_def)
  with p(2) x show ?thesis by (auto simp: has_parent_def list_ex_iff)
qed

lemma no_dangling_delete_bot:
  assumes "no_dangling (disk w)"
  shows "no_dangling (disk (snd (delete_record f i ''Bots'' ''Bot_ID'' w)))"
  using delete_record_disk [of f i "''Bots''" "''Bot_ID''" w]
proof
  assume "disk (snd (delete_record f i ''Bots'' ''Bot_ID'' w)) = disk w"
  with assms show ?thesis by simp
next
  assume "run_all (delete_stmts (bind_param i) ''Bots'' ''Bot_ID'') (disk w)
            = Some (disk (snd (delete_record f i ''Bots'' ''Bot_ID'' w)))"
  from delete_bots_result [OF this] assms show ?thesis
    by (auto simp: no_dangling_iff set_not_matching intro: has_parent_not_matching)
qed

lemma no_dangling_delete_knowledge:
  assumes "no_dangling (disk w)"
  shows "no_dangling (disk (snd (delete_record f i ''KnowledgeBase'' ''ID'' w)))"
  using delete_record_disk [of f i "''KnowledgeBase''" "''ID''" w]
proof
  assume "disk (snd (delete_record f i ''KnowledgeBase'' ''ID'' w)) = disk w"
  with assms show ?thesis by simp
next
  assume "run_all (delete_stmts (bind_param i) ''KnowledgeBase'' ''ID'') (disk w)
            = Some (disk (snd (delete_record f i ''KnowledgeBase'' ''ID'' w)))"
  from delete_kb_result [OF this] assms show ?thesis
    by (auto simp: no_dangling_iff set_not_matching intro: has_parent_not_matching)
qed

lemma no_dangling_replace:
  assumes "no_dangling (disk w)" and "bot_exists b (disk w)"
    and "list_all (\<lambda>k. knowledge_exists k (disk w)) ks"
  shows "no_dangling (disk (snd (update_bot_knowledge_links f b ks w)))"
  using update_links_disk [of f b ks w]
proof
  assume "disk (snd (update_bot_knowledge_links f b ks w)) = disk w"
  with assms show ?thesis by simp
next
  assume "run_all (replace_stmts b ks) (disk w) = Some (disk (snd (update_bot_knowledge_links f b ks w)))"
  from update_links_result [OF this] assms show ?thesis
    by (auto simp: no_dangling_iff has_parent_link_row bot_exists_def knowledge_exists_def
        list_all_iff not_matching_def)
qed

lemma link_loop_result:
  "link_loop f b ks d = Inr d' \<Longrightarrow>
   Bots d' = Bots d \<and> KnowledgeBase d' = KnowledgeBase d \<and>
   set (BotKnowledgeLink d') \<subseteq> set (BotKnowledgeLink d) \<union> link_row b ` set ks"
proof (induction ks arbitrary: d)
  case Nil
  then show ?case by simp
next
  case (Cons k ks)
  show ?case
  proof (cases "select_link b k d = []")
    case True
    with Cons.prems obtain d1
      where d1: "exec f (Insert_into ''BotKnowledgeLink'' (link_row b k)) d = Inr d1"
        and rest: "link_loop f b ks d1 = Inr d'"
      by (auto split: sum.splits)
    from d1 have "d1 = d\<lparr>BotKnowledgeLink := BotKnowledgeLink d @ [link_row b k]\<rparr>"
      by (rule exec_insert_link)
    with Cons.IH [OF rest] show ?thesis by auto
  next
    case False
    with Cons.prems have "link_loop f b ks d = Inr d'"
      by (auto split: sum.splits)
    from Cons.IH [OF this] show ?thesis by auto
  qed
qed

lemma no_dangling_link:
  assumes "no_dangling (disk w)" and "bot_exists b (disk w)"
    and "list_all (\<lambda>k. knowledge_exists k (disk w)) ks"
  shows "no_dangling (disk (snd (link_bot_to_knowledgebase f (PInt b) (map PInt ks) w)))"
  using link_disk [of f "PInt b" "map PInt ks" w]
proof
  assume "disk (snd (link_bot_to_knowledgebase f (PInt b) (map PInt ks) w)) = disk w"
  with assms show ?thesis by simp
next
  assume "link_loop f (bind_param (PInt b)) (map bind_param (map PInt ks)) (disk w)
            = Inr (disk (snd (link_bot_to_knowledgebase f (PInt b) (map PInt ks) w)))"
  from link_loop_result [OF this] assms show ?thesis
    by (auto simp: no_dangling_iff has_parent_link_row bot_exists_def knowledge_exists_def
        list_all_iff)
qed

lemma matches_assign_other: "c \<notin> fst ` set as \<Longrightarrow> matches c v (assign as r) = matches c v r"
  by (simp add: matches_def map_of_assign_other)

lemma has_parent_update:
  assumes "key \<notin> fst ` set as" and "has_parent key P col l"
  shows "has_parent key (map (\<lambda>r. if matches c v r then assign as r else r) P) col l"
proof -
  let ?g = "\<lambda>r. if matches c v r then assign as r else r"
  from assms(2) obtain x p where x: "map_of l col = Some x" and p: "p \<in> set P" "matches key x p"
    by (auto simp: has_parent_def list_ex_iff split: option.splits)
  from p(2) assms(1) have "matches key x (?g p)"
    by (simp add: matches_assign_other)
  moreover from p(1) have "?g p \<in> set (map ?g P)" unfolding set_map by (rule imageI)
  ultimately show ?thesis using x
    unfolding has_parent_def list_ex_iff by (simp only: option.case) blast
qed

lemma update_record_disk:
  "disk (snd (update_record f i data t c w)) = disk w \<or>
   run (Update_where t (processed_data data) c (bind_param i)) (disk w)
     = Some (disk (snd (update_record f i data t c w)))"
  by (auto simp: update_record_def split: option.splits sum.splits dest!: exec_Inr)

lemma no_dangling_update:
  assumes "no_dangling (disk w)" and "t \<noteq> ''BotKnowledgeLink''"
    and "''Bot_ID'' \<notin> fst ` set data" and "''ID'' \<notin> fst ` set data"
  shows "no_dangling (disk (snd (update_record f i data t c w)))"
  using update_record_disk [of f i data t c w]
proof
  assume "disk (snd (update_record f i data t c w)) = disk w"
  with assms show ?thesis by simp
next
  let ?d' = "disk (snd (update_record f i data t c w))"
  let ?g = "\<lambda>r. if matches c (bind_param i) r then assign (processed_data data) r else r"
  have keys: "''Bot_ID'' \<notin> fst ` set (processed_data data)" "''ID'' \<notin> fst ` set (processed_data data)"
    using assms(3,4) processed_data_fst [of data] by (metis list.set_map)+
  assume "run (Update_where t (processed_data data) c (bind_param i)) (disk w) = Some ?d'"
  with assms(2) consider
      "?d' = (disk w)\<lparr>Bots := map ?g (Bots (disk w))\<rparr>"
    | "?d' = (disk w)\<lparr>KnowledgeBase := map ?g (KnowledgeBase (disk w))\<rparr>"
    by (auto simp: get_table_def put_table_def split: if_splits)
  then show ?thesis
  proof cases
    case 1
    with assms(1) keys show ?thesis
      by (auto simp: no_dangling_iff intro: has_parent_update)
  next
    case 2
    with assms(1) keys show ?thesis
      by (auto simp: no_dangling_iff intro: has_parent_update)
  qed
qed

text \<open>
  C4, as the code has it. Link creation does not look at the parent tables:
  linking the bot key 99, which no row of \<open>Bots\<close> has, to the knowledge entry
  5 succeeds on a store without dangling links and leaves the link (99, 5).
\<close>

theorem link_to_missing_bot_counterexample:
  "no_dangling (disk world0)
   \<and> disk (snd (link_bot_to_knowledgebase no_faults (PInt 99) [PInt 5] world0))
       = store0\<lparr>BotKnowledgeLink :=
           [link_row (SInt 7) (SInt 5), link_row (SInt 8) (SInt 6), link_row (SInt 99) (SInt 5)]\<rparr>
   \<and> \<not> no_dangling (disk (snd (link_bot_to_knowledgebase no_faults (PInt 99) [PInt 5] world0)))"
  by (simp add: op_defs inv_defs eval_defs)

text \<open>
  C4, amended. From a store with no dangling links, every sequence of these
  calls, whatever fails in them, leaves no link row that refers to a bot key
  absent from \<open>Bots\<close> or a knowledge key absent from \<open>KnowledgeBase\<close>:
  \<open>link_bot_to_knowledgebase\<close> and \<open>update_bot_knowledge_links\<close> with the keys
  of rows that exist, \<open>delete_record\<close> on \<open>Bots\<close> by \<open>Bot_ID\<close> and on
  \<open>KnowledgeBase\<close> by \<open>ID\<close>, and \<open>update_record\<close> on \<open>Bots\<close> or \<open>KnowledgeBase\<close>
  that assigns neither \<open>Bot_ID\<close> nor \<open>ID\<close>.
\<close>

theorem no_dangling_preserved:
  assumes "reaches w w'" and "no_dangling (disk w)"
  shows "no_dangling (disk w')"
  using assms
proof (induction rule: reaches.induct)
  case (start w)
  then show ?case by simp
next
  case (link w w1 b ks w2 f)
  then show ?case by (simp add: no_dangling_link)
next
  case (replace w w1 b ks w2 f)
  then show ?case by (simp add: no_dangling_replace)
next
  case (delete_bot w w1 w2 f i)
  then show ?case by (simp add: no_dangling_delete_bot)
next
  case (delete_knowledge w w1 w2 f i)
  then show ?case by (simp add: no_dangling_delete_knowledge)
next
  case (update w w1 table_name data w2 f i column_name)
  then show ?case by (simp add: no_dangling_update)
qed

theorem no_dangling_preserved_witness:
  "no_dangling (disk world0)
   \<and> disk (snd (delete_record no_faults (PInt 7) ''Bots'' ''Bot_ID''
        (snd (link_bot_to_knowledgebase no_faults (PInt 7) (map PInt [6]) world0))))
       = \<lparr>Bots = [bo], KnowledgeBase = [[(''ID'', SInt 5)], [(''ID'', SInt 6)]],
          BotKnowledgeLink = [link_row (SInt 8) (SInt 6)]\<rparr>
   \<and> no_dangling (disk (snd (delete_record no_faults (PInt 7) ''Bots'' ''Bot_ID''
        (snd (link_bot_to_knowledgebase no_faults (PInt 7) (map PInt [6]) world0)))))"
proof -
  have inv: "no_dangling (disk world0)"
    by (simp add: inv_defs eval_defs)
  have b: "bot_exists 7 (disk world0)" and k: "list_all (\<lambda>k. knowledge_exists k (disk world0)) [6]"
    by (simp_all add: inv_defs eval_defs)
  have "reaches world0 (snd (link_bot_to_knowledgebase no_faults (PInt 7) (map PInt [6]) world0))"
    by (rule reaches.link [OF reaches.start b k refl])
  then have "reaches world0 (snd (delete_record no_faults (PInt 7) ''Bots'' ''Bot_ID''
        (snd (link_bot_to_knowledgebase no_faults (PInt 7) (map PInt [6]) world0))))"
    by (rule reaches.delete_bot [OF _ refl])
  from no_dangling_preserved [OF this inv] inv show ?thesis
    by (simp add: op_defs eval_defs)
qed

section \<open>Where the code departs from its contract\<close>

text \<open>
  Deleting from \<open>Bots\<close> is all or nothing, whatever fails: the file keeps
  the database it had, or it has lost the link rows whose \<open>Bot_ID\<close> is the
  identifier together with the \<open>Bots\<close> rows whose identifier column is the
  identifier. The two sets belong to the same bot when that column is
  \<open>Bot_ID\<close>.
\<close>

lemma delete_record_all_or_nothing:
  "disk (snd (delete_record f i ''Bots'' c w)) = disk w \<or>
   disk (snd (delete_record f i ''Bots'' c w)) =
     (disk w)\<lparr>BotKnowledgeLink := not_matching ''Bot_ID'' (bind_param i) (BotKnowledgeLink (disk w)),
              Bots := not_matching c (bind_param i) (Bots (disk w))\<rparr>"
  using delete_record_disk [of f i "''Bots''" c w]
  by (metis run_all_delete_bots option.inject)

text \<open>
  C1, at the call the Delete Record form makes. The form identifies a bot by
  \<open>Botperson_Name\<close> and passes the name as \<open>identifier\<close>; \<open>delete_record\<close>
  uses the same value for \<open>Bot_ID\<close> in the delete of the links. On a store
  that lets the row go, deleting Aida commits the removal of her \<open>Bots\<close> row
  while her link (7, 5) stays, now without a parent.
\<close>

theorem delete_form_orphans_links:
  "delete_form_submit no_faults ''Aida'' ''Bots'' world0
     = (Returned (), world0\<lparr>disk := \<lparr>Bots = [bo], KnowledgeBase = [[(''ID'', SInt 5)], [(''ID'', SInt 6)]],
          BotKnowledgeLink = [link_row (SInt 7) (SInt 5), link_row (SInt 8) (SInt 6)]\<rparr>\<rparr>)
   \<and> \<not> no_dangling (disk (snd (delete_form_submit no_faults ''Aida'' ''Bots'' world0)))"
  by (simp add: op_defs inv_defs eval_defs)

text \<open>
  C3, at the bot key \<open>None\<close>. The Add Record form hands the result of
  \<open>add_bot_and_get_id\<close>, which is \<open>None\<close> when the insert of the bot raised,
  to \<open>link_bot_to_knowledgebase\<close>. The SELECT then compares \<open>Bot_ID\<close> with
  NULL and fetches nothing, so every key is inserted: on a store that
  takes the rows, \<open>[5, 5]\<close> leaves two rows (NULL, 5), and a second call with
  the same arguments adds two more.
\<close>

theorem link_none_key_duplicates:
  "BotKnowledgeLink (disk (snd (link_bot_to_knowledgebase no_faults PNone [PInt 5, PInt 5] world0)))
     = [link_row (SInt 7) (SInt 5), link_row (SInt 8) (SInt 6),
        link_row SNull (SInt 5), link_row SNull (SInt 5)]
   \<and> BotKnowledgeLink (disk (snd (link_bot_to_knowledgebase no_faults PNone [PInt 5, PInt 5]
         (snd (link_bot_to_knowledgebase no_faults PNone [PInt 5, PInt 5] world0)))))
     = [link_row (SInt 7) (SInt 5), link_row (SInt 8) (SInt 6),
        link_row SNull (SInt 5), link_row SNull (SInt 5),
        link_row SNull (SInt 5), link_row SNull (SInt 5)]"
  by (simp add: op_defs eval_defs)

text \<open>
  C7, at a delete. \<open>delete_record\<close> does not clear the cache: after
  \<open>load_data\<close> has read \<open>Bots\<close> at time 100 and the bot 7 has been deleted, a
  read at the same time still returns the row of the deleted bot.
\<close>

theorem delete_record_stale_read:
  "(let w1 = snd (load_data no_faults 100 ''Bots'' world0);
        w2 = snd (delete_record no_faults (PInt 7) ''Bots'' ''Bot_ID'' w1)
    in Bots (disk w2) = [bo] \<and> cache w2 = [(''Bots'', 100, [aida, bo])]
       \<and> fst (load_data no_faults 100 ''Bots'' w2) = Returned [aida, bo])"
  by (simp add: op_defs eval_defs)

text \<open>
  C8, at a failing insert. \<open>update_bot_knowledge_links\<close> has no handler: the
  \<open>IntegrityError\<close> of the INSERT leaves the function as an exception, no
  message is shown, and the connection stays open.
\<close>

theorem update_bot_knowledge_links_propagates:
  "update_bot_knowledge_links (fail_insert 7 6) 7 [6] world0
     = (Raised IntegrityError, \<lparr>disk = store0, cache = [], ui = [], conns = 1\<rparr>)"
  by (simp add: op_defs eval_defs)

end
